theory Spec2Isabelle
  imports Complex_Main "HOL-Library.AList" "HOL-Library.Monad_Syntax"
begin

section \<open>Rectangle and the JSON helpers of 06-objects-tasks.js\<close>

subsection \<open>Objects of the runtime\<close>

text \<open>
  A JavaScript number is a finite value, \<^verbatim>\<open>NaN\<close> or an infinity. A finite number is
  modelled by the real it denotes: the functions below store, encode and decode numbers and
  never calculate with them. A function value is opaque, named by its source text.
\<close>

datatype number = Finite real | NaN | PosInfinity | NegInfinity

datatype js_value = Number number | Null | Function string

text \<open>
  A property is a data property, with its value and whether it is writable, or the accessor
  \<^verbatim>\<open>__proto__\<close> of \<^verbatim>\<open>Object.prototype\<close>, the only accessor property there is in a program
  that defines none. An object has its own properties, in the order they were created, and
  a prototype (\<open>None\<close> is \<^verbatim>\<open>null\<close>). The data properties written down are enumerable, but
  for the function-valued ones of the built-in prototypes; the accessor is not enumerable.
\<close>

datatype property = Data js_value bool | Proto_accessor

datatype obj = Obj (own: "(string \<times> property) list") (proto: "obj option")

text \<open>
  The property a read \<^verbatim>\<open>o[k]\<close> or an assignment \<^verbatim>\<open>o[k] = v\<close> finds: the own property
  \<open>k\<close>, or else the first one along the chain of prototypes. \<open>None\<close>: there is none, and a
  read gives \<^verbatim>\<open>undefined\<close>.
\<close>

fun lookup :: "obj \<Rightarrow> string \<Rightarrow> property option" where
  "lookup (Obj props None) k = map_of props k"
| "lookup (Obj props (Some p)) k =
     (case map_of props k of Some x \<Rightarrow> Some x | None \<Rightarrow> lookup p k)"

text \<open>
  The assignment \<^verbatim>\<open>this[k] = v\<close>, in code that is not strict (the file has no
  \<^verbatim>\<open>'use strict'\<close>, and both constructors are plain functions). When no property \<open>k\<close> is
  found, or a writable data property, \<open>this\<close> gets the own property \<open>k\<close> (overwritten in
  place, or created after the others). A data property that is not writable makes the
  assignment do nothing. The accessor runs its setter: \<^verbatim>\<open>null\<close> becomes the prototype of
  \<open>this\<close>, a number is ignored. A function would become the prototype, and the model has no
  function objects: the result is \<open>None\<close> then, and only then.
\<close>

definition set_property :: "obj \<Rightarrow> string \<Rightarrow> js_value \<Rightarrow> obj option" where
  "set_property this k v =
     (case lookup this k of
        None \<Rightarrow> Some (Obj (AList.update k (Data v True) (own this)) (proto this))
      | Some (Data _ True) \<Rightarrow> Some (Obj (AList.update k (Data v True) (own this)) (proto this))
      | Some (Data _ False) \<Rightarrow> Some this
      | Some Proto_accessor \<Rightarrow>
          (case v of
             Null \<Rightarrow> Some (Obj (own this) None)
           | Number _ \<Rightarrow> Some this
           | Function _ \<Rightarrow> None))"

text \<open>
  The own keys of an object are listed with the array indices first, in ascending order,
  and the other keys after them in the order they were created. An array index is the
  decimal numeral, without leading zeros, of a number below \<open>2 ^ 32 - 1\<close>.
\<close>

definition digit_value :: "char \<Rightarrow> nat option" where
  "digit_value c =
     map_of [(CHR ''0'', 0), (CHR ''1'', 1), (CHR ''2'', 2), (CHR ''3'', 3), (CHR ''4'', 4),
             (CHR ''5'', 5), (CHR ''6'', 6), (CHR ''7'', 7), (CHR ''8'', 8), (CHR ''9'', 9)] c"

definition array_index :: "string \<Rightarrow> nat option" where
  "array_index k =
     (case those (map digit_value k) of
        None \<Rightarrow> None
      | Some [] \<Rightarrow> None
      | Some (d # ds) \<Rightarrow>
          (if d = 0 \<and> ds \<noteq> [] then None
           else let n = foldl (\<lambda>a d. 10 * a + d) 0 (d # ds)
                in if n < 4294967295 then Some n else None))"

definition own_entries :: "(string \<times> 'a) list \<Rightarrow> (string \<times> 'a) list" where
  "own_entries props =
     sort_key (\<lambda>(k, _). case array_index k of Some n \<Rightarrow> n | None \<Rightarrow> 0)
       (filter (\<lambda>(k, _). array_index k \<noteq> None) props)
     @ filter (\<lambda>(k, _). array_index k = None) props"

text \<open>
  \<^verbatim>\<open>Object.prototype\<close>, with its twelve own properties, ends the chain of every object made
  by \<^verbatim>\<open>new\<close> or read by \<^verbatim>\<open>JSON.parse\<close>. \<^verbatim>\<open>Rectangle.prototype\<close> is the object every
  function gets when it is declared: its only own property is \<^verbatim>\<open>constructor\<close>, and the file
  assigns nothing else to it.
\<close>

definition Object_prototype :: obj where
  "Object_prototype =
     Obj [(''constructor'', Data (Function ''Object'') True),
          (''__defineGetter__'', Data (Function ''__defineGetter__'') True),
          (''__defineSetter__'', Data (Function ''__defineSetter__'') True),
          (''hasOwnProperty'', Data (Function ''hasOwnProperty'') True),
          (''__lookupGetter__'', Data (Function ''__lookupGetter__'') True),
          (''__lookupSetter__'', Data (Function ''__lookupSetter__'') True),
          (''isPrototypeOf'', Data (Function ''isPrototypeOf'') True),
          (''propertyIsEnumerable'', Data (Function ''propertyIsEnumerable'') True),
          (''toString'', Data (Function ''toString'') True),
          (''valueOf'', Data (Function ''valueOf'') True),
          (''__proto__'', Proto_accessor),
          (''toLocaleString'', Data (Function ''toLocaleString'') True)]
       None"

definition Rectangle_prototype :: obj where
  "Rectangle_prototype =
     Obj [(''constructor'', Data (Function ''Rectangle'') True)] (Some Object_prototype)"

text \<open>
  A JSON text that denotes an object whose members are numbers or \<^verbatim>\<open>null\<close>, given by its
  members in order. \<^verbatim>\<open>JSON.stringify\<close> of an object first looks for a property
  \<^verbatim>\<open>toJSON\<close>: if that is a function it is called and decides the text, which the model
  cannot tell (\<open>None\<close>). Otherwise the own enumerable properties are written in the order of
  the own keys: a finite number as itself, \<^verbatim>\<open>NaN\<close>, an infinity and \<^verbatim>\<open>null\<close> as
  \<^verbatim>\<open>null\<close>, and a property whose value is a function is left out. \<^verbatim>\<open>JSON.parse\<close> defines
  the members as own properties of a new object, one after the other; of two members with
  the same key the later value wins.
\<close>

datatype json_value = JNumber real | JNull

type_synonym json_text = "(string \<times> json_value) list"

fun encoded :: "number \<Rightarrow> json_value" where
  "encoded (Finite x) = JNumber x"
| "encoded _ = JNull"

fun SerializeJSONProperty :: "property \<Rightarrow> json_value option" where
  "SerializeJSONProperty (Data (Number n) _) = Some (encoded n)"
| "SerializeJSONProperty (Data Null _) = Some JNull"
| "SerializeJSONProperty (Data (Function _) _) = None"
| "SerializeJSONProperty Proto_accessor = None"

definition JSON_stringify :: "obj \<Rightarrow> json_text option" where
  "JSON_stringify obj =
     (case lookup obj ''toJSON'' of
        Some (Data (Function _) _) \<Rightarrow> None
      | _ \<Rightarrow>
          Some (List.map_filter (\<lambda>(k, p). map_option (Pair k) (SerializeJSONProperty p))
                  (own_entries (own obj))))"

fun value_of :: "json_value \<Rightarrow> js_value" where
  "value_of (JNumber x) = Number (Finite x)"
| "value_of JNull = Null"

definition JSON_parse :: "json_text \<Rightarrow> (string \<times> js_value) list" where
  "JSON_parse json = foldl (\<lambda>params (k, j). AList.update k (value_of j) params) [] json"

subsection \<open>Rectangle, getJSON, fromJSON\<close>

text \<open>
  \<^verbatim>\<open>new Rectangle(width, height)\<close>: a new object whose prototype is
  \<^verbatim>\<open>Rectangle.prototype\<close>, on which the constructor makes three assignments. The third
  stores the arrow function as a property of the new object.
\<close>

definition Rectangle :: "number \<Rightarrow> number \<Rightarrow> obj option" where
  "Rectangle width height =
     do {
       this \<leftarrow> set_property (Obj [] (Some Rectangle_prototype)) ''width'' (Number width);
       this \<leftarrow> set_property this ''height'' (Number height);
       set_property this ''getArea'' (Function ''() => this.width * this.height'')
     }"

definition getJSON :: "obj \<Rightarrow> json_text option" where
  "getJSON obj = JSON_stringify obj"

text \<open>
  \<^verbatim>\<open>new NewObj()\<close> with \<^verbatim>\<open>NewObj.prototype = proto\<close>: a new object whose prototype is
  \<^verbatim>\<open>proto\<close>, on which the constructor assigns \<^verbatim>\<open>params[prop]\<close> to \<^verbatim>\<open>this[prop]\<close> for
  every key of \<^verbatim>\<open>params\<close>, in the order of \<^verbatim>\<open>Object.keys\<close>.
\<close>

definition fromJSON :: "obj \<Rightarrow> json_text \<Rightarrow> obj option" where
  "fromJSON proto' json =
     (let params = JSON_parse json
      in foldl (\<lambda>this (prop, v). do { this \<leftarrow> this; set_property this prop v })
           (Some (Obj [] (Some proto'))) (own_entries params))"

section \<open>The CSS selector builder of 06-objects-tasks.js\<close>

subsection \<open>Values, errors and completions\<close>

text \<open>
  A selector part is passed as a JavaScript string. The three singular slots of a selector
  (element, id, pseudo-element) start as \<^verbatim>\<open>null\<close>, so a slot is a \<open>string option\<close>
  with \<open>None\<close> for \<^verbatim>\<open>null\<close>. The guards \<^verbatim>\<open>if (this.config.element)\<close> test JavaScript truthiness: \<^verbatim>\<open>null\<close> and the
  empty string are falsy, every other string is truthy.
\<close>

definition truthy :: "string option \<Rightarrow> bool" where
  "truthy v = (case v of None \<Rightarrow> False | Some s \<Rightarrow> s \<noteq> [])"

text \<open>\<^verbatim>\<open>new Error(message)\<close>: the only exception the file throws.\<close>

datatype js_error = Error string

text \<open>
  A method call on an object either returns (every part-method returns \<^verbatim>\<open>this\<close>) or
  throws. The object is mutable, so a call is modelled by its completion together with
  the state of the receiver after the call, whichever way it completed.
\<close>

datatype completion = Normal | Throw js_error

text \<open>The property names of \<^verbatim>\<open>config\<close>, which are also the names of the part-methods.\<close>

datatype part = Element | Id | Class | Attr | PseudoClass | PseudoElement

record config =
  element :: "string option"
  id' :: "string option"
  class' :: "string list"
  attr :: "string list"
  pseudoClass :: "string list"
  pseudoElement :: "string option"

record CssSelector =
  config :: config
  currentOrder :: int

subsection \<open>class CssSelector\<close>

text \<open>
  The constructor. \<^verbatim>\<open>obj\<close> is an object literal, given by its entries in order;
  \<^verbatim>\<open>Object.entries(obj).forEach\<close> is a left fold over them. The keys are the six
  property names of \<^verbatim>\<open>config\<close> (the facade passes no other), so the inner
  \<open>case\<close> only selects the property that \<^verbatim>\<open>this.config[key]\<close> names; its default
  branches are never reached.
\<close>

definition constructor_entry :: "CssSelector \<Rightarrow> part \<times> string \<Rightarrow> CssSelector" where
  "constructor_entry this kv =
     (case kv of (key, val) \<Rightarrow>
        (if key \<in> set [Class, Attr, PseudoClass] then
           (case key of
              Class \<Rightarrow> this\<lparr>config := (config this)\<lparr>class' := class' (config this) @ [val]\<rparr>\<rparr>
            | Attr \<Rightarrow> this\<lparr>config := (config this)\<lparr>attr := attr (config this) @ [val]\<rparr>\<rparr>
            | PseudoClass \<Rightarrow>
                this\<lparr>config := (config this)\<lparr>pseudoClass := pseudoClass (config this) @ [val]\<rparr>\<rparr>
            | _ \<Rightarrow> this)
         else
           (case key of
              Element \<Rightarrow> this\<lparr>config := (config this)\<lparr>element := Some val\<rparr>\<rparr>
            | Id \<Rightarrow> this\<lparr>config := (config this)\<lparr>id' := Some val\<rparr>\<rparr>
            | PseudoElement \<Rightarrow> this\<lparr>config := (config this)\<lparr>pseudoElement := Some val\<rparr>\<rparr>
            | _ \<Rightarrow> this)))"

definition CssSelector_new :: "(part \<times> string) list \<Rightarrow> int \<Rightarrow> CssSelector" where
  "CssSelector_new obj order =
     foldl constructor_entry
       \<lparr>config = \<lparr>element = None, id' = None, class' = [], attr = [], pseudoClass = [],
                   pseudoElement = None\<rparr>,
        currentOrder = order\<rparr>
       obj"

definition duplicate_message :: string where
  "duplicate_message =
     ''Element, id and pseudo-element should not occur more then one time inside the selector''"

definition order_message :: string where
  "order_message =
     ''Selector parts should be arranged in the following order: element, id, class, attribute, pseudo-class, pseudo-element''"

definition CssSelector_element :: "string \<Rightarrow> CssSelector \<Rightarrow> completion \<times> CssSelector" where
  "CssSelector_element val this =
     (if truthy (element (config this)) then (Throw (Error duplicate_message), this)
      else let order = 0 in
        if order < currentOrder this then (Throw (Error order_message), this)
        else (Normal, this\<lparr>config := (config this)\<lparr>element := Some val\<rparr>, currentOrder := 0\<rparr>))"

definition CssSelector_id :: "string \<Rightarrow> CssSelector \<Rightarrow> completion \<times> CssSelector" where
  "CssSelector_id val this =
     (if truthy (id' (config this)) then (Throw (Error duplicate_message), this)
      else let order = 1 in
        if order < currentOrder this then (Throw (Error order_message), this)
        else (Normal, this\<lparr>config := (config this)\<lparr>id' := Some val\<rparr>, currentOrder := 1\<rparr>))"

definition CssSelector_class :: "string \<Rightarrow> CssSelector \<Rightarrow> completion \<times> CssSelector" where
  "CssSelector_class val this =
     (let order = 2 in
        if order < currentOrder this then (Throw (Error order_message), this)
        else (Normal, this\<lparr>config := (config this)\<lparr>class' := class' (config this) @ [val]\<rparr>,
                           currentOrder := 2\<rparr>))"

definition CssSelector_attr :: "string \<Rightarrow> CssSelector \<Rightarrow> completion \<times> CssSelector" where
  "CssSelector_attr val this =
     (let order = 3 in
        if order < currentOrder this then (Throw (Error order_message), this)
        else (Normal, this\<lparr>config := (config this)\<lparr>attr := attr (config this) @ [val]\<rparr>,
                           currentOrder := 3\<rparr>))"

definition CssSelector_pseudoClass :: "string \<Rightarrow> CssSelector \<Rightarrow> completion \<times> CssSelector" where
  "CssSelector_pseudoClass val this =
     (let order = 4 in
        if order < currentOrder this then (Throw (Error order_message), this)
        else (Normal,
              this\<lparr>config := (config this)\<lparr>pseudoClass := pseudoClass (config this) @ [val]\<rparr>,
                   currentOrder := 4\<rparr>))"

definition CssSelector_pseudoElement :: "string \<Rightarrow> CssSelector \<Rightarrow> completion \<times> CssSelector" where
  "CssSelector_pseudoElement val this =
     (if truthy (pseudoElement (config this)) then (Throw (Error duplicate_message), this)
      else let order = 5 in
        if order < currentOrder this then (Throw (Error order_message), this)
        else (Normal, this\<lparr>config := (config this)\<lparr>pseudoElement := Some val\<rparr>,
                           currentOrder := 5\<rparr>))"

text \<open>
  \<^verbatim>\<open>stringify\<close> of a selector reads the object and changes nothing. A template literal
  such as \<^verbatim>\<open>`#${this.config.id}`\<close> on a string is concatenation; each \<^verbatim>\<open>forEach\<close> is a
  left fold that appends to \<^verbatim>\<open>result\<close>.
\<close>

definition CssSelector_stringify :: "CssSelector \<Rightarrow> string" where
  "CssSelector_stringify this =
     (let result = '''';
          result = (if truthy (element (config this))
                    then result @ the (element (config this)) else result);
          result = (if truthy (id' (config this))
                    then result @ ''#'' @ the (id' (config this)) else result);
          result = (if length (class' (config this)) \<noteq> 0
                    then foldl (\<lambda>r cssCl. r @ ''.'' @ cssCl) result (class' (config this))
                    else result);
          result = (if length (attr (config this)) \<noteq> 0
                    then foldl (\<lambda>r att. r @ ''['' @ att @ '']'') result (attr (config this))
                    else result);
          result = (if length (pseudoClass (config this)) \<noteq> 0
                    then foldl (\<lambda>r pseudoCl. r @ '':'' @ pseudoCl) result
                           (pseudoClass (config this))
                    else result);
          result = (if truthy (pseudoElement (config this))
                    then result @ ''::'' @ the (pseudoElement (config this)) else result)
      in result)"

subsection \<open>The facade cssSelectorBuilder\<close>

text \<open>Each creation method returns a new selector object.\<close>

definition cssSelectorBuilder_element :: "string \<Rightarrow> CssSelector" where
  "cssSelectorBuilder_element val = CssSelector_new [(Element, val)] 0"

definition cssSelectorBuilder_id :: "string \<Rightarrow> CssSelector" where
  "cssSelectorBuilder_id val = CssSelector_new [(Id, val)] 1"

definition cssSelectorBuilder_class :: "string \<Rightarrow> CssSelector" where
  "cssSelectorBuilder_class val = CssSelector_new [(Class, val)] 2"

definition cssSelectorBuilder_attr :: "string \<Rightarrow> CssSelector" where
  "cssSelectorBuilder_attr val = CssSelector_new [(Attr, val)] 3"

definition cssSelectorBuilder_pseudoClass :: "string \<Rightarrow> CssSelector" where
  "cssSelectorBuilder_pseudoClass val = CssSelector_new [(PseudoClass, val)] 4"

definition cssSelectorBuilder_pseudoElement :: "string \<Rightarrow> CssSelector" where
  "cssSelectorBuilder_pseudoElement val = CssSelector_new [(PseudoElement, val)] 5"

text \<open>
  The facade is one object with one mutable field, the array \<^verbatim>\<open>res\<close>.
  \<^verbatim>\<open>combine\<close> returns \<^verbatim>\<open>this\<close>, the facade, so an operand of \<^verbatim>\<open>combine\<close> is
  either a selector object or a reference to the facade itself.
\<close>

record cssSelectorBuilder =
  res :: "string list"

datatype renderable = Selector CssSelector | Facade

text \<open>
  The loop of the facade's \<^verbatim>\<open>stringify\<close>: while \<^verbatim>\<open>res\<close> is not empty,
  \<^verbatim>\<open>pop\<close> removes and returns its last entry.
\<close>

function stringify_loop :: "string \<Rightarrow> string list \<Rightarrow> string \<times> string list" where
  "stringify_loop result r =
     (if length r > 0 then stringify_loop (result @ last r) (butlast r) else (result, r))"
  by pat_completeness auto
termination
  by (relation "measure (\<lambda>(result, r). length r)") auto

declare stringify_loop.simps [simp del]

definition cssSelectorBuilder_stringify ::
  "cssSelectorBuilder \<Rightarrow> string \<times> cssSelectorBuilder" where
  "cssSelectorBuilder_stringify this =
     (case stringify_loop '''' (res this) of (result, r) \<Rightarrow> (result, this\<lparr>res := r\<rparr>))"

text \<open>
  \<^verbatim>\<open>selector.stringify()\<close> inside \<^verbatim>\<open>combine\<close> dispatches on the operand: a selector
  object renders itself and leaves the facade alone, the facade runs its own
  \<^verbatim>\<open>stringify\<close> and so empties \<^verbatim>\<open>res\<close>.
\<close>

definition stringify :: "renderable \<Rightarrow> cssSelectorBuilder \<Rightarrow> string \<times> cssSelectorBuilder" where
  "stringify sel b =
     (case sel of
        Selector s \<Rightarrow> (CssSelector_stringify s, b)
      | Facade \<Rightarrow> cssSelectorBuilder_stringify b)"

definition cssSelectorBuilder_combine ::
  "renderable \<Rightarrow> string \<Rightarrow> renderable \<Rightarrow> cssSelectorBuilder
     \<Rightarrow> renderable \<times> cssSelectorBuilder" where
  "cssSelectorBuilder_combine selector1 combinator selector2 this =
     (let result = '''';
          (s1, this) = stringify selector1 this;
          result = result @ s1;
          result = result @ '' '' @ combinator @ '' '';
          (s2, this) = stringify selector2 this;
          result = result @ s2
      in (Facade, this\<lparr>res := res this @ [result]\<rparr>))"

text \<open>
  A client that calls \<^verbatim>\<open>combine\<close> several times in a row and drops what it returns,
  and the string one \<^verbatim>\<open>combine\<close> of two selector objects puts together.
\<close>

fun combine_all ::
  "(renderable \<times> string \<times> renderable) list \<Rightarrow> cssSelectorBuilder \<Rightarrow> cssSelectorBuilder" where
  "combine_all [] this = this"
| "combine_all ((selector1, combinator, selector2) # calls) this =
     combine_all calls (snd (cssSelectorBuilder_combine selector1 combinator selector2 this))"

definition combination :: "CssSelector \<times> string \<times> CssSelector \<Rightarrow> string" where
  "combination t =
     (case t of (l, c, r) \<Rightarrow> CssSelector_stringify l @ '' '' @ c @ '' '' @ CssSelector_stringify r)"

definition of_selectors ::
  "CssSelector \<times> string \<times> CssSelector \<Rightarrow> renderable \<times> string \<times> renderable" where
  "of_selectors t = (case t of (l, c, r) \<Rightarrow> (Selector l, c, Selector r))"

subsection \<open>Method chains\<close>

text \<open>
  \<^verbatim>\<open>sel.m(v)\<close> for the part-method named \<open>m\<close>, and a chain
  \<^verbatim>\<open>builder.m0(v0).m1(v1)...\<close>: the facade creates the selector, each further call
  runs on the object the previous one returned, and the first throw ends the chain.
\<close>

definition call :: "part \<Rightarrow> string \<Rightarrow> CssSelector \<Rightarrow> completion \<times> CssSelector" where
  "call m val this =
     (case m of
        Element \<Rightarrow> CssSelector_element val this
      | Id \<Rightarrow> CssSelector_id val this
      | Class \<Rightarrow> CssSelector_class val this
      | Attr \<Rightarrow> CssSelector_attr val this
      | PseudoClass \<Rightarrow> CssSelector_pseudoClass val this
      | PseudoElement \<Rightarrow> CssSelector_pseudoElement val this)"

definition create :: "part \<Rightarrow> string \<Rightarrow> CssSelector" where
  "create m val =
     (case m of
        Element \<Rightarrow> cssSelectorBuilder_element val
      | Id \<Rightarrow> cssSelectorBuilder_id val
      | Class \<Rightarrow> cssSelectorBuilder_class val
      | Attr \<Rightarrow> cssSelectorBuilder_attr val
      | PseudoClass \<Rightarrow> cssSelectorBuilder_pseudoClass val
      | PseudoElement \<Rightarrow> cssSelectorBuilder_pseudoElement val)"

fun chain :: "(part \<times> string) list \<Rightarrow> CssSelector \<Rightarrow> js_error + CssSelector" where
  "chain [] this = Inr this"
| "chain ((m, val) # calls) this =
     (case call m val this of
        (Throw e, _) \<Rightarrow> Inl e
      | (Normal, this') \<Rightarrow> chain calls this')"

definition build :: "part \<times> string \<Rightarrow> (part \<times> string) list \<Rightarrow> js_error + CssSelector" where
  "build first calls = chain calls (create (fst first) (snd first))"

text \<open>The rank of a part, the constant \<^verbatim>\<open>order\<close> of its method.\<close>

fun rank :: "part \<Rightarrow> int" where
  "rank Element = 0"
| "rank Id = 1"
| "rank Class = 2"
| "rank Attr = 3"
| "rank PseudoClass = 4"
| "rank PseudoElement = 5"

text \<open>
  What the first guard of a part-method tests: the slot of the same name for
  \<^verbatim>\<open>element\<close>, \<^verbatim>\<open>id\<close> and \<^verbatim>\<open>pseudoElement\<close>; the other three methods have no
  such guard. \<open>store\<close> is the assignment or \<^verbatim>\<open>push\<close> a part-method ends with.
\<close>

fun singular :: "part \<Rightarrow> bool" where
  "singular Element = True"
| "singular Id = True"
| "singular PseudoElement = True"
| "singular _ = False"

fun slot :: "part \<Rightarrow> config \<Rightarrow> string option" where
  "slot Element c = element c"
| "slot Id c = id' c"
| "slot PseudoElement c = pseudoElement c"
| "slot _ c = None"

fun store :: "part \<Rightarrow> string \<Rightarrow> config \<Rightarrow> config" where
  "store Element v c = c\<lparr>element := Some v\<rparr>"
| "store Id v c = c\<lparr>id' := Some v\<rparr>"
| "store Class v c = c\<lparr>class' := class' c @ [v]\<rparr>"
| "store Attr v c = c\<lparr>attr := attr c @ [v]\<rparr>"
| "store PseudoClass v c = c\<lparr>pseudoClass := pseudoClass c @ [v]\<rparr>"
| "store PseudoElement v c = c\<lparr>pseudoElement := Some v\<rparr>"

subsection \<open>The render the specification describes\<close>

text \<open>
  The values passed to the part-method \<open>m\<close> in a chain of calls, in the order the calls
  were made.
\<close>

definition values_of :: "part \<Rightarrow> (part \<times> string) list \<Rightarrow> string list" where
  "values_of m calls = map snd (filter (\<lambda>c. fst c = m) calls)"

text \<open>
  The specification's render of a chain, in its words: the element bare, \<^verbatim>\<open>#\<close> before
  the id, \<^verbatim>\<open>.\<close> before each class, each attribute inside \<^verbatim>\<open>[\<close> and \<^verbatim>\<open>]\<close>, \<^verbatim>\<open>:\<close>
  before each pseudo-class and \<^verbatim>\<open>::\<close> before the pseudo-element, in this fixed order.
\<close>

definition claimed_render :: "(part \<times> string) list \<Rightarrow> string" where
  "claimed_render calls =
     concat (values_of Element calls)
     @ concat (map (\<lambda>v. ''#'' @ v) (values_of Id calls))
     @ concat (map (\<lambda>v. ''.'' @ v) (values_of Class calls))
     @ concat (map (\<lambda>v. ''['' @ v @ '']'') (values_of Attr calls))
     @ concat (map (\<lambda>v. '':'' @ v) (values_of PseudoClass calls))
     @ concat (map (\<lambda>v. ''::'' @ v) (values_of PseudoElement calls))"

text \<open>The same, with an empty id and an empty pseudo-element left out altogether.\<close>

definition nonempty_render :: "(part \<times> string) list \<Rightarrow> string" where
  "nonempty_render calls =
     concat (values_of Element calls)
     @ concat (map (\<lambda>v. ''#'' @ v) (filter (\<lambda>v. v \<noteq> []) (values_of Id calls)))
     @ concat (map (\<lambda>v. ''.'' @ v) (values_of Class calls))
     @ concat (map (\<lambda>v. ''['' @ v @ '']'') (values_of Attr calls))
     @ concat (map (\<lambda>v. '':'' @ v) (values_of PseudoClass calls))
     @ concat (map (\<lambda>v. ''::'' @ v) (filter (\<lambda>v. v \<noteq> []) (values_of PseudoElement calls)))"

text \<open>
  A valid chain: the ranks of its calls never decrease, and each singular part occurs at
  most once.
\<close>

definition valid_calls :: "(part \<times> string) list \<Rightarrow> bool" where
  "valid_calls calls =
     (sorted (map (\<lambda>c. rank (fst c)) calls)
      \<and> length (values_of Element calls) \<le> 1
      \<and> length (values_of Id calls) \<le> 1
      \<and> length (values_of PseudoElement calls) \<le> 1)"

text \<open>What a singular slot contributes to \<^verbatim>\<open>stringify\<close>, bare or after a prefix.\<close>

definition bare :: "string option \<Rightarrow> string" where
  "bare v = (case v of None \<Rightarrow> [] | Some s \<Rightarrow> s)"

definition prefixed :: "string \<Rightarrow> string option \<Rightarrow> string" where
  "prefixed p v = (case v of None \<Rightarrow> [] | Some s \<Rightarrow> if s = [] then [] else p @ s)"

section \<open>Properties of the selector\<close>

subsection \<open>The part-methods in one equation\<close>

lemmas method_defs = CssSelector_element_def CssSelector_id_def CssSelector_class_def
  CssSelector_attr_def CssSelector_pseudoClass_def CssSelector_pseudoElement_def

lemmas facade_defs = cssSelectorBuilder_element_def cssSelectorBuilder_id_def
  cssSelectorBuilder_class_def cssSelectorBuilder_attr_def cssSelectorBuilder_pseudoClass_def
  cssSelectorBuilder_pseudoElement_def

lemma call_eq:
  "call m val this =
     (if truthy (slot m (config this)) then (Throw (Error duplicate_message), this)
      else if rank m < currentOrder this then (Throw (Error order_message), this)
      else (Normal, this\<lparr>config := store m val (config this), currentOrder := rank m\<rparr>))"
  by (cases m) (simp_all add: call_def method_defs truthy_def)

lemma create_eq:
  "create m val =
     \<lparr>config = store m val \<lparr>element = None, id' = None, class' = [], attr = [],
                 pseudoClass = [], pseudoElement = None\<rparr>,
      currentOrder = rank m\<rparr>"
  by (cases m) (simp_all add: create_def facade_defs CssSelector_new_def constructor_entry_def)

lemma messages_differ: "duplicate_message \<noteq> order_message"
  by (simp add: duplicate_message_def order_message_def)

lemma slot_store_other: "m' \<noteq> m \<Longrightarrow> slot m (store m' v c) = slot m c"
  by (cases m; cases m') simp_all

lemma slot_store_same: "singular m \<Longrightarrow> slot m (store m v c) = Some v"
  by (cases m) simp_all

lemma truthy_slot_singular: "truthy (slot m c) \<Longrightarrow> singular m"
  by (cases m) (simp_all add: truthy_def)

lemma chain_Cons_Inr:
  "chain ((m, v) # calls) this = Inr s \<longleftrightarrow>
     (\<not> truthy (slot m (config this)) \<and> currentOrder this \<le> rank m
      \<and> chain calls (this\<lparr>config := store m v (config this), currentOrder := rank m\<rparr>) = Inr s)"
  by (simp add: call_eq)

lemma chain_keeps_truthy_slot:
  "chain calls this = Inr s \<Longrightarrow> truthy (slot m (config this)) \<Longrightarrow>
     slot m (config s) = slot m (config this)"
proof (induction calls arbitrary: this)
  case Nil
  then show ?case by simp
next
  case (Cons c calls)
  obtain m' v where c: "c = (m', v)" by (cases c)
  let ?next = "this\<lparr>config := store m' v (config this), currentOrder := rank m'\<rparr>"
  from Cons.prems(1) c have ok: "\<not> truthy (slot m' (config this))"
    and rest: "chain calls ?next = Inr s"
    by (simp_all add: chain_Cons_Inr del: chain.simps)
  from ok Cons.prems(2) have "m' \<noteq> m" by auto
  then have same: "slot m (config ?next) = slot m (config this)"
    by (simp add: slot_store_other)
  with Cons.IH [OF rest] Cons.prems(2) show ?case by simp
qed

subsection \<open>What a successful chain stores\<close>

lemma foldl_append_concat: "foldl (\<lambda>r x. r @ f x) acc xs = acc @ concat (map f xs)"
  by (induction xs arbitrary: acc) simp_all

lemma truthy_bare: "(if truthy v then r @ the v else r) = r @ bare v"
  by (cases v) (simp_all add: truthy_def bare_def)

lemma truthy_prefixed: "(if truthy v then r @ p @ the v else r) = r @ prefixed p v"
  by (cases v) (simp_all add: truthy_def prefixed_def)

lemma forEach_append:
  "(if length xs \<noteq> 0 then foldl (\<lambda>r x. r @ f x) r0 xs else r0) = r0 @ concat (map f xs)"
  by (simp add: foldl_append_concat)

lemma CssSelector_stringify_eq:
  "CssSelector_stringify this =
     bare (element (config this))
     @ prefixed ''#'' (id' (config this))
     @ concat (map (\<lambda>v. ''.'' @ v) (class' (config this)))
     @ concat (map (\<lambda>v. ''['' @ v @ '']'') (attr (config this)))
     @ concat (map (\<lambda>v. '':'' @ v) (pseudoClass (config this)))
     @ prefixed ''::'' (pseudoElement (config this))"
  unfolding CssSelector_stringify_def Let_def truthy_bare truthy_prefixed forEach_append
  by (simp only: append_Nil append_assoc)

lemma values_of_Nil [simp]: "values_of m [] = []"
  by (simp add: values_of_def)

lemma values_of_Cons [simp]:
  "values_of m ((m', v) # calls) = (if m' = m then v # values_of m calls else values_of m calls)"
  by (simp add: values_of_def)

text \<open>One successful call, slot by slot.\<close>

lemma bare_element_store:
  "\<not> truthy (slot m c) \<Longrightarrow>
     bare (element (store m v c)) = bare (element c) @ concat (values_of Element [(m, v)])"
  by (cases m) (simp_all add: truthy_def bare_def split: option.splits)

lemma prefixed_id_store:
  "\<not> truthy (slot m c) \<Longrightarrow>
     prefixed p (id' (store m v c)) =
       prefixed p (id' c) @ concat (map (\<lambda>v. p @ v) (filter (\<lambda>v. v \<noteq> []) (values_of Id [(m, v)])))"
  by (cases m) (simp_all add: truthy_def prefixed_def split: option.splits)

lemma prefixed_pseudoElement_store:
  "\<not> truthy (slot m c) \<Longrightarrow>
     prefixed p (pseudoElement (store m v c)) =
       prefixed p (pseudoElement c)
       @ concat (map (\<lambda>v. p @ v) (filter (\<lambda>v. v \<noteq> []) (values_of PseudoElement [(m, v)])))"
  by (cases m) (simp_all add: truthy_def prefixed_def split: option.splits)

lemma lists_store:
  "class' (store m v c) = class' c @ values_of Class [(m, v)]"
  "attr (store m v c) = attr c @ values_of Attr [(m, v)]"
  "pseudoClass (store m v c) = pseudoClass c @ values_of PseudoClass [(m, v)]"
  by (cases m; simp)+

lemma values_of_step: "values_of k ((m, v) # calls) = values_of k [(m, v)] @ values_of k calls"
  by simp

lemma chain_config:
  "chain calls this = Inr s \<Longrightarrow>
     bare (element (config s)) = bare (element (config this)) @ concat (values_of Element calls)
     \<and> prefixed p (id' (config s)) =
         prefixed p (id' (config this))
         @ concat (map (\<lambda>v. p @ v) (filter (\<lambda>v. v \<noteq> []) (values_of Id calls)))
     \<and> class' (config s) = class' (config this) @ values_of Class calls
     \<and> attr (config s) = attr (config this) @ values_of Attr calls
     \<and> pseudoClass (config s) = pseudoClass (config this) @ values_of PseudoClass calls
     \<and> prefixed q (pseudoElement (config s)) =
         prefixed q (pseudoElement (config this))
         @ concat (map (\<lambda>v. q @ v) (filter (\<lambda>v. v \<noteq> []) (values_of PseudoElement calls)))"
proof (induction calls arbitrary: this)
  case Nil
  then show ?case by simp
next
  case (Cons c calls)
  obtain m v where c: "c = (m, v)" by (cases c)
  let ?next = "this\<lparr>config := store m v (config this), currentOrder := rank m\<rparr>"
  from Cons.prems c have ok: "\<not> truthy (slot m (config this))"
    and rest: "chain calls ?next = Inr s"
    by (simp_all add: chain_Cons_Inr del: chain.simps)
  note IH = Cons.IH [OF rest]
  show ?case
    unfolding c values_of_step [of _ m v calls]
    using IH bare_element_store [OF ok, of v] prefixed_id_store [OF ok, of p v]
      prefixed_pseudoElement_store [OF ok, of q v] lists_store [of m v "config this"]
    by (simp del: values_of_Cons)
qed

lemma chain_sorted:
  "chain calls this = Inr s \<Longrightarrow>
     sorted (map (\<lambda>c. rank (fst c)) calls) \<and> (\<forall>c \<in> set calls. currentOrder this \<le> rank (fst c))"
proof (induction calls arbitrary: this)
  case Nil
  then show ?case by simp
next
  case (Cons c calls)
  obtain m v where c: "c = (m, v)" by (cases c)
  let ?next = "this\<lparr>config := store m v (config this), currentOrder := rank m\<rparr>"
  from Cons.prems c have ord: "currentOrder this \<le> rank m"
    and rest: "chain calls ?next = Inr s"
    by (simp_all add: chain_Cons_Inr del: chain.simps)
  from Cons.IH [OF rest] have sorted: "sorted (map (\<lambda>c. rank (fst c)) calls)"
    and above: "\<forall>c \<in> set calls. rank m \<le> rank (fst c)"
    by simp_all
  from sorted above ord show ?case
    unfolding c by auto
qed

lemma chain_succeeds:
  "sorted (map (\<lambda>c. rank (fst c)) calls) \<Longrightarrow>
   \<forall>c \<in> set calls. currentOrder this \<le> rank (fst c) \<Longrightarrow>
   \<forall>m. singular m \<longrightarrow> length (values_of m calls) \<le> 1 \<Longrightarrow>
   \<forall>m. truthy (slot m (config this)) \<longrightarrow> values_of m calls = [] \<Longrightarrow>
   \<exists>s. chain calls this = Inr s"
proof (induction calls arbitrary: this)
  case Nil
  then show ?case by simp
next
  case (Cons c calls)
  obtain m v where c: "c = (m, v)" by (cases c)
  let ?next = "this\<lparr>config := store m v (config this), currentOrder := rank m\<rparr>"
  from Cons.prems(4) have "truthy (slot m (config this)) \<longrightarrow> values_of m (c # calls) = []"
    by blast
  then have ok: "\<not> truthy (slot m (config this))"
    by (simp add: c)
  have ord: "currentOrder this \<le> rank m"
    using Cons.prems(2) c by simp
  have "\<exists>s. chain calls ?next = Inr s"
  proof (rule Cons.IH)
    show "sorted (map (\<lambda>c. rank (fst c)) calls)"
      using Cons.prems(1) by simp
    show "\<forall>c\<in>set calls. currentOrder ?next \<le> rank (fst c)"
      using Cons.prems(1) c by simp
    show "\<forall>m'. singular m' \<longrightarrow> length (values_of m' calls) \<le> 1"
    proof (intro allI impI)
      fix m'
      assume "singular m'"
      with Cons.prems(3) have "length (values_of m' (c # calls)) \<le> 1"
        by blast
      then show "length (values_of m' calls) \<le> 1"
        by (simp add: c split: if_splits)
    qed
    show "\<forall>m'. truthy (slot m' (config ?next)) \<longrightarrow> values_of m' calls = []"
    proof (intro allI impI)
      fix m'
      assume t: "truthy (slot m' (config ?next))"
      then have sing: "singular m'"
        by (rule truthy_slot_singular)
      with Cons.prems(3) have len: "length (values_of m' (c # calls)) \<le> 1"
        by blast
      show "values_of m' calls = []"
      proof (cases "m' = m")
        case True
        with len c show ?thesis by simp
      next
        case False
        with t have "truthy (slot m' (config this))"
          by (simp add: slot_store_other)
        with Cons.prems(4) have "values_of m' (c # calls) = []" by blast
        with False c show ?thesis by simp
      qed
    qed
  qed
  then show ?case
    unfolding c using ok ord by (simp add: chain_Cons_Inr del: chain.simps)
qed

lemma singular_cases: "singular m \<longleftrightarrow> m = Element \<or> m = Id \<or> m = PseudoElement"
  by (cases m) simp_all

lemma valid_build_succeeds:
  assumes "valid_calls ((m, v) # calls)"
  shows "\<exists>s. chain calls (create m v) = Inr s"
proof (rule chain_succeeds)
  show "sorted (map (\<lambda>c. rank (fst c)) calls)"
    using assms by (simp add: valid_calls_def)
  show "\<forall>c\<in>set calls. currentOrder (create m v) \<le> rank (fst c)"
    using assms by (simp add: valid_calls_def create_eq)
  have len: "singular k \<Longrightarrow> length (values_of k ((m, v) # calls)) \<le> 1" for k
    using assms unfolding valid_calls_def singular_cases by blast
  show "\<forall>k. singular k \<longrightarrow> length (values_of k calls) \<le> 1"
  proof (intro allI impI)
    fix k
    assume "singular k"
    from len [OF this] show "length (values_of k calls) \<le> 1"
      by (simp split: if_splits)
  qed
  show "\<forall>k. truthy (slot k (config (create m v))) \<longrightarrow> values_of k calls = []"
  proof (intro allI impI)
    fix k
    assume t: "truthy (slot k (config (create m v)))"
    then have sing: "singular k" by (rule truthy_slot_singular)
    have "k = m"
    proof (rule ccontr)
      assume "k \<noteq> m"
      then have "slot k (config (create m v)) =
          slot k \<lparr>element = None, id' = None, class' = [], attr = [],
            pseudoClass = [], pseudoElement = None\<rparr>"
        by (simp add: create_eq slot_store_other [of m k])
      also have "\<dots> = None"
        by (cases k) simp_all
      finally show False
        using t by (simp add: truthy_def)
    qed
    with len [OF sing] show "values_of k calls = []" by simp
  qed
qed

lemma built_fields:
  assumes "chain calls (create m v) = Inr s"
  shows "bare (element (config s)) = concat (values_of Element ((m, v) # calls))"
    and "prefixed p (id' (config s)) =
      concat (map (\<lambda>v. p @ v) (filter (\<lambda>v. v \<noteq> []) (values_of Id ((m, v) # calls))))"
    and "class' (config s) = values_of Class ((m, v) # calls)"
    and "attr (config s) = values_of Attr ((m, v) # calls)"
    and "pseudoClass (config s) = values_of PseudoClass ((m, v) # calls)"
    and "prefixed q (pseudoElement (config s)) =
      concat (map (\<lambda>v. q @ v) (filter (\<lambda>v. v \<noteq> []) (values_of PseudoElement ((m, v) # calls))))"
proof -
  let ?init = "\<lparr>element = None, id' = None, class' = [], attr = [],
      pseudoClass = [], pseudoElement = None\<rparr>"
  have init: "\<not> truthy (slot m ?init)"
    by (cases m) (simp_all add: truthy_def)
  have c0: "config (create m v) = store m v ?init"
    by (simp add: create_eq)
  note cfg = chain_config [OF assms, of p q, unfolded c0]
  show "bare (element (config s)) = concat (values_of Element ((m, v) # calls))"
    using cfg bare_element_store [OF init, of v]
    unfolding values_of_step [of _ m v calls] by (simp add: bare_def del: values_of_Cons)
  show "prefixed p (id' (config s)) =
      concat (map (\<lambda>v. p @ v) (filter (\<lambda>v. v \<noteq> []) (values_of Id ((m, v) # calls))))"
    using cfg prefixed_id_store [OF init, of p v]
    unfolding values_of_step [of _ m v calls] by (simp add: prefixed_def del: values_of_Cons)
  show "prefixed q (pseudoElement (config s)) =
      concat (map (\<lambda>v. q @ v) (filter (\<lambda>v. v \<noteq> []) (values_of PseudoElement ((m, v) # calls))))"
    using cfg prefixed_pseudoElement_store [OF init, of q v]
    unfolding values_of_step [of _ m v calls] by (simp add: prefixed_def del: values_of_Cons)
  show "class' (config s) = values_of Class ((m, v) # calls)"
    using cfg lists_store(1) [of m v ?init]
    unfolding values_of_step [of _ m v calls] by (simp del: values_of_Cons)
  show "attr (config s) = values_of Attr ((m, v) # calls)"
    using cfg lists_store(2) [of m v ?init]
    unfolding values_of_step [of _ m v calls] by (simp del: values_of_Cons)
  show "pseudoClass (config s) = values_of PseudoClass ((m, v) # calls)"
    using cfg lists_store(3) [of m v ?init]
    unfolding values_of_step [of _ m v calls] by (simp del: values_of_Cons)
qed

lemma built_render:
  assumes "chain calls (create m v) = Inr s"
  shows "CssSelector_stringify s = nonempty_render ((m, v) # calls)"
  unfolding CssSelector_stringify_eq nonempty_render_def
  by (simp only: built_fields [OF assms])

lemma nonempty_render_claimed:
  "[] \<notin> set (values_of Id calls) \<Longrightarrow> [] \<notin> set (values_of PseudoElement calls) \<Longrightarrow>
     nonempty_render calls = claimed_render calls"
proof -
  assume a: "[] \<notin> set (values_of Id calls)" and b: "[] \<notin> set (values_of PseudoElement calls)"
  have "filter (\<lambda>v. v \<noteq> []) (values_of Id calls) = values_of Id calls"
    using a by (auto intro!: filter_True)
  moreover have "filter (\<lambda>v. v \<noteq> []) (values_of PseudoElement calls) = values_of PseudoElement calls"
    using b by (auto intro!: filter_True)
  ultimately show ?thesis
    by (simp add: nonempty_render_def claimed_render_def)
qed

subsection \<open>Failing calls\<close>

text \<open>
  Claim C4, as the code has it: a singular part (\<^verbatim>\<open>element\<close>, \<^verbatim>\<open>id\<close> or
  \<^verbatim>\<open>pseudoElement\<close>) that was set to a non-empty string, by the facade's creation method
  or by a successful call of the part-method, cannot be set again: after any further
  successful calls, a second call of the same method throws the error whose message is
  exactly the duplicate message, and leaves the selector as it was. (The claim says so for
  every value that was set; for the empty string it fails, see the counterexample.)
\<close>

theorem duplicate_singular_part_rejected:
  assumes "singular m" and "v \<noteq> []"
    and "this = create m v \<or> call m v before = (Normal, this)"
    and "chain calls this = Inr later"
  shows "call m w later =
    (Throw (Error ''Element, id and pseudo-element should not occur more then one time inside the selector''),
     later)"
proof -
  have "slot m (config this) = Some v"
    using assms(1,3) by (auto simp: create_eq call_eq slot_store_same split: if_splits)
  then have t: "truthy (slot m (config this))"
    using assms(2) by (simp add: truthy_def)
  from chain_keeps_truthy_slot [OF assms(4) t] t
  have "truthy (slot m (config later))" by simp
  then show ?thesis
    by (simp add: call_eq duplicate_message_def)
qed

theorem duplicate_singular_part_rejected_witness:
  "call Element ''span'' (snd (call Class ''c'' (create Element ''div''))) =
    (Throw (Error ''Element, id and pseudo-element should not occur more then one time inside the selector''),
     snd (call Class ''c'' (create Element ''div'')))
   \<and> call Id ''b'' (snd (call Id ''a'' (create Element ''div''))) =
    (Throw (Error ''Element, id and pseudo-element should not occur more then one time inside the selector''),
     snd (call Id ''a'' (create Element ''div'')))"
proof -
  have c1: "chain [(Class, ''c'')] (create Element ''div'') =
      Inr (snd (call Class ''c'' (create Element ''div'')))"
    by (simp add: call_eq create_eq truthy_def)
  have c2: "call Id ''a'' (create Element ''div'') =
      (Normal, snd (call Id ''a'' (create Element ''div'')))"
    by (simp add: call_eq create_eq truthy_def)
  have c3: "chain [] (snd (call Id ''a'' (create Element ''div''))) =
      Inr (snd (call Id ''a'' (create Element ''div'')))"
    by simp
  show ?thesis
    using duplicate_singular_part_rejected [of Element "''div''" "create Element ''div''" undefined
        "[(Class, ''c'')]" "snd (call Class ''c'' (create Element ''div''))" "''span''"]
      duplicate_singular_part_rejected [of Id "''a''" "snd (call Id ''a'' (create Element ''div''))"
        "create Element ''div''" "[]" "snd (call Id ''a'' (create Element ''div''))" "''b''"]
      c1 c2 c3
    by simp
qed

text \<open>
  The counterexample to C4 as stated: \<^verbatim>\<open>builder.element('').element('b')\<close>. The element
  has been set (to the empty string), and the second call returns normally.
\<close>

theorem empty_element_can_be_set_again:
  "element (config (cssSelectorBuilder_element '''')) = Some ''''
   \<and> CssSelector_element ''b'' (cssSelectorBuilder_element '''') =
       (Normal, cssSelectorBuilder_element ''b'')"
  by (simp add: CssSelector_element_def cssSelectorBuilder_element_def CssSelector_new_def
      constructor_entry_def truthy_def)

text \<open>
  Claim C6, as the code has it: in a part-method the uniqueness check runs before the
  ordering check. A call of a singular part-method whose slot is already set and whose
  rank is below the current one fails and leaves the selector unchanged. When the slot
  holds a non-empty value the uniqueness check fires and the error is the duplicate error,
  not the ordering error, whose message is a different string. When the slot holds the
  empty string the uniqueness check passes, and the error is the ordering error.
\<close>

theorem uniqueness_check_runs_first:
  assumes "singular m" and "slot m (config this) = Some v" and "rank m < currentOrder this"
  shows "call m val this =
      (Throw (Error (if v \<noteq> []
         then ''Element, id and pseudo-element should not occur more then one time inside the selector''
         else ''Selector parts should be arranged in the following order: element, id, class, attribute, pseudo-class, pseudo-element'')),
       this)
    \<and> ''Element, id and pseudo-element should not occur more then one time inside the selector'' \<noteq>
      ''Selector parts should be arranged in the following order: element, id, class, attribute, pseudo-class, pseudo-element''"
  using assms by (simp add: call_eq truthy_def duplicate_message_def order_message_def)

text \<open>
  The witness is the claim's own example, \<^verbatim>\<open>builder.element('a').id('x').element('b')\<close>,
  which throws the duplicate error, and \<^verbatim>\<open>builder.element('').attr('h').element('b')\<close>,
  which throws the ordering error.
\<close>

theorem uniqueness_check_runs_first_witness:
  "CssSelector_element ''b'' (snd (CssSelector_id ''x'' (cssSelectorBuilder_element ''a''))) =
      (Throw (Error ''Element, id and pseudo-element should not occur more then one time inside the selector''),
       snd (CssSelector_id ''x'' (cssSelectorBuilder_element ''a'')))
   \<and> CssSelector_element ''b'' (snd (CssSelector_attr ''h'' (cssSelectorBuilder_element ''''))) =
      (Throw (Error ''Selector parts should be arranged in the following order: element, id, class, attribute, pseudo-class, pseudo-element''),
       snd (CssSelector_attr ''h'' (cssSelectorBuilder_element '''')))"
proof -
  let ?s1 = "snd (CssSelector_id ''x'' (cssSelectorBuilder_element ''a''))"
  let ?s2 = "snd (CssSelector_attr ''h'' (cssSelectorBuilder_element ''''))"
  have s1: "?s1 = snd (call Id ''x'' (create Element ''a''))"
    and s2: "?s2 = snd (call Attr ''h'' (create Element ''''))"
    by (simp_all add: call_def create_def)
  have h0: "singular Element"
    by simp
  have h1: "slot Element (config ?s1) = Some ''a''" and h2: "rank Element < currentOrder ?s1"
    and h3: "slot Element (config ?s2) = Some ''''" and h4: "rank Element < currentOrder ?s2"
    unfolding s1 s2 by (simp_all add: call_eq create_eq truthy_def)
  from uniqueness_check_runs_first [OF h0 h1 h2, of "''b''"]
    uniqueness_check_runs_first [OF h0 h3 h4, of "''b''"]
  show ?thesis by (simp add: call_def)
qed

text \<open>
  The counterexample to C6 as stated: \<^verbatim>\<open>builder.id('').class('c').id('y')\<close>. The id is
  already set (to the empty string) and the last call is out of rank order, so it is both a
  second \<^verbatim>\<open>id\<close> and out of order; the error it throws is the ordering error, not the
  duplicate error.
\<close>

theorem empty_id_out_of_order_is_not_duplicate:
  "fst (CssSelector_class ''c'' (cssSelectorBuilder_id '''')) = Normal
   \<and> id' (config (snd (CssSelector_class ''c'' (cssSelectorBuilder_id '''')))) = Some ''''
   \<and> currentOrder (snd (CssSelector_class ''c'' (cssSelectorBuilder_id ''''))) = 2
   \<and> fst (CssSelector_id ''y'' (snd (CssSelector_class ''c'' (cssSelectorBuilder_id '''')))) =
       Throw (Error ''Selector parts should be arranged in the following order: element, id, class, attribute, pseudo-class, pseudo-element'')
   \<and> fst (CssSelector_id ''y'' (snd (CssSelector_class ''c'' (cssSelectorBuilder_id '''')))) \<noteq>
       Throw (Error ''Element, id and pseudo-element should not occur more then one time inside the selector'')"
  by (simp add: CssSelector_id_def CssSelector_class_def cssSelectorBuilder_id_def
      CssSelector_new_def constructor_entry_def truthy_def order_message_def)

text \<open>
  Claim C7: a failing part-method call is atomic. When a call throws, the error is one of
  the two, the selector after the call is the selector before it (its stored parts and
  its \<^verbatim>\<open>currentOrder\<close>), and so it renders and answers every later call as if the
  failed call had not been made.
\<close>

theorem failed_call_is_atomic:
  assumes "call m val this = (Throw e, this')"
  shows "this' = this \<and> config this' = config this \<and> currentOrder this' = currentOrder this
    \<and> (e = Error duplicate_message \<or> e = Error order_message)
    \<and> call m2 val2 this' = call m2 val2 this
    \<and> CssSelector_stringify this' = CssSelector_stringify this"
  using assms by (auto simp: call_eq split: if_splits)

theorem failed_call_is_atomic_witness:
  "CssSelector_id ''x'' (cssSelectorBuilder_class ''c'') =
     (Throw (Error order_message), cssSelectorBuilder_class ''c'')
   \<and> CssSelector_id ''y'' (cssSelectorBuilder_id ''x'') =
     (Throw (Error duplicate_message), cssSelectorBuilder_id ''x'')"
proof -
  have h1: "call Id ''x'' (create Class ''c'') =
      (Throw (Error order_message), snd (call Id ''x'' (create Class ''c'')))"
    and h2: "call Id ''y'' (create Id ''x'') =
      (Throw (Error duplicate_message), snd (call Id ''y'' (create Id ''x'')))"
    by (simp_all add: call_eq create_eq truthy_def)
  from failed_call_is_atomic [OF h1] failed_call_is_atomic [OF h2] h1 h2
  show ?thesis by (simp add: call_def create_def)
qed

text \<open>
  Claim C5, as the code has it: a part-method whose rank is strictly less than
  \<^verbatim>\<open>currentOrder\<close> (the rank of the part added last) always fails and leaves the selector
  unchanged. The error is the ordering error, with exactly its message, unless the slot of
  the method holds a non-empty value: then the uniqueness check fires first and the error
  is the duplicate error. A call of equal or greater rank never throws the ordering error.
  \<^verbatim>\<open>currentOrder\<close> is the rank of the last part: the creation method sets it, and so does
  every successful call.
\<close>

theorem lower_rank_call_fails:
  "(rank m < currentOrder this \<longrightarrow>
      call m val this =
        (Throw (Error (if truthy (slot m (config this))
           then ''Element, id and pseudo-element should not occur more then one time inside the selector''
           else ''Selector parts should be arranged in the following order: element, id, class, attribute, pseudo-class, pseudo-element'')),
         this))
   \<and> (currentOrder this \<le> rank m \<longrightarrow>
      fst (call m val this) \<noteq>
        Throw (Error ''Selector parts should be arranged in the following order: element, id, class, attribute, pseudo-class, pseudo-element''))
   \<and> currentOrder (create m val) = rank m
   \<and> (fst (call m val this) = Normal \<longrightarrow> currentOrder (snd (call m val this)) = rank m)"
  by (simp add: call_eq create_eq duplicate_message_def order_message_def)

text \<open>
  The witness: \<^verbatim>\<open>builder.class('c').id('x')\<close> throws the ordering error, and
  \<^verbatim>\<open>builder.class('c').attr('href')\<close> returns with \<^verbatim>\<open>currentOrder\<close> 3.
\<close>

theorem lower_rank_call_fails_witness:
  "CssSelector_id ''x'' (cssSelectorBuilder_class ''c'') =
     (Throw (Error ''Selector parts should be arranged in the following order: element, id, class, attribute, pseudo-class, pseudo-element''),
      cssSelectorBuilder_class ''c'')
   \<and> fst (CssSelector_attr ''href'' (cssSelectorBuilder_class ''c'')) = Normal
   \<and> currentOrder (snd (CssSelector_attr ''href'' (cssSelectorBuilder_class ''c''))) = 3"
proof -
  have h1: "rank Id < currentOrder (create Class ''c'')"
    and h2: "currentOrder (create Class ''c'') \<le> rank Attr"
    and h3: "fst (call Attr ''href'' (create Class ''c'')) = Normal"
    and h4: "\<not> truthy (slot Id (config (create Class ''c'')))"
    by (simp_all add: call_eq create_eq truthy_def)
  from lower_rank_call_fails [of Id "create Class ''c''" "''x''"]
    lower_rank_call_fails [of Attr "create Class ''c''" "''href''"] h1 h2 h3 h4
  show ?thesis by (simp add: call_def create_def)
qed

text \<open>
  The counterexample to C5 as stated: \<^verbatim>\<open>builder.element('a').id('x').element('b')\<close>. The
  last call has rank 0, below the current rank 1, and the error it throws is the duplicate
  error, not the ordering error.
\<close>

theorem element_after_id_is_duplicate_not_out_of_order:
  "fst (CssSelector_id ''x'' (cssSelectorBuilder_element ''a'')) = Normal
   \<and> currentOrder (snd (CssSelector_id ''x'' (cssSelectorBuilder_element ''a''))) = 1
   \<and> fst (CssSelector_element ''b'' (snd (CssSelector_id ''x'' (cssSelectorBuilder_element ''a'')))) =
       Throw (Error ''Element, id and pseudo-element should not occur more then one time inside the selector'')
   \<and> fst (CssSelector_element ''b'' (snd (CssSelector_id ''x'' (cssSelectorBuilder_element ''a'')))) \<noteq>
       Throw (Error ''Selector parts should be arranged in the following order: element, id, class, attribute, pseudo-class, pseudo-element'')"
  by (simp add: CssSelector_element_def CssSelector_id_def cssSelectorBuilder_element_def
      CssSelector_new_def constructor_entry_def truthy_def duplicate_message_def)

subsection \<open>The empty string\<close>

text \<open>
  Claim C9, as the code has it: when a singular slot holds the empty string, a later call
  of the same part-method does not throw the duplicate error (the check tests truthiness,
  not presence). If the method's rank is not below \<^verbatim>\<open>currentOrder\<close> the call returns and
  the slot holds the new value; otherwise it throws the ordering error and the selector is
  unchanged. A slot that holds the empty string renders exactly as a slot that was never
  set: it contributes nothing, not even its punctuation.
\<close>

theorem empty_singular_part:
  "(singular m \<and> slot m (config this) = Some [] \<longrightarrow>
      fst (call m val this) \<noteq>
        Throw (Error ''Element, id and pseudo-element should not occur more then one time inside the selector'')
      \<and> (currentOrder this \<le> rank m \<longrightarrow>
           fst (call m val this) = Normal
           \<and> slot m (config (snd (call m val this))) = Some val)
      \<and> (rank m < currentOrder this \<longrightarrow>
           call m val this =
             (Throw (Error ''Selector parts should be arranged in the following order: element, id, class, attribute, pseudo-class, pseudo-element''),
              this)))
   \<and> CssSelector_stringify (this\<lparr>config := (config this)\<lparr>element := Some []\<rparr>\<rparr>) =
       CssSelector_stringify (this\<lparr>config := (config this)\<lparr>element := None\<rparr>\<rparr>)
   \<and> CssSelector_stringify (this\<lparr>config := (config this)\<lparr>id' := Some []\<rparr>\<rparr>) =
       CssSelector_stringify (this\<lparr>config := (config this)\<lparr>id' := None\<rparr>\<rparr>)
   \<and> CssSelector_stringify (this\<lparr>config := (config this)\<lparr>pseudoElement := Some []\<rparr>\<rparr>) =
       CssSelector_stringify (this\<lparr>config := (config this)\<lparr>pseudoElement := None\<rparr>\<rparr>)"
  by (simp add: call_eq truthy_def order_message_def duplicate_message_def slot_store_same
      CssSelector_stringify_eq bare_def prefixed_def)

text \<open>
  The witness: \<^verbatim>\<open>builder.id('').id('x')\<close> returns the selector \<^verbatim>\<open>#x\<close>,
  \<^verbatim>\<open>builder.id('')\<close> renders to the empty string, and
  \<^verbatim>\<open>builder.element('').class('c').element('b')\<close> throws the ordering error.
\<close>

theorem empty_singular_part_witness:
  "CssSelector_id ''x'' (cssSelectorBuilder_id '''') = (Normal, cssSelectorBuilder_id ''x'')
   \<and> CssSelector_stringify (cssSelectorBuilder_id '''') = ''''
   \<and> CssSelector_element ''b'' (snd (CssSelector_class ''c'' (cssSelectorBuilder_element ''''))) =
     (Throw (Error ''Selector parts should be arranged in the following order: element, id, class, attribute, pseudo-class, pseudo-element''),
      snd (CssSelector_class ''c'' (cssSelectorBuilder_element '''')))"
proof -
  let ?s = "snd (call Class ''c'' (create Element ''''))"
  have h1: "singular Id \<and> slot Id (config (create Id '''')) = Some []"
    and h2: "currentOrder (create Id '''') \<le> rank Id"
    and h3: "singular Element \<and> slot Element (config ?s) = Some []"
    and h4: "rank Element < currentOrder ?s"
    by (simp_all add: call_eq create_eq truthy_def)
  have r: "CssSelector_stringify (create Id '''') = ''''"
    by (simp add: create_eq CssSelector_stringify_def truthy_def)
  have e: "call Id ''x'' (create Id '''') = (Normal, create Id ''x'')"
    using empty_singular_part [of Id "create Id ''''" "''x''"] h1 h2
    by (simp add: call_eq create_eq truthy_def)
  from empty_singular_part [of Element ?s "''b''"] h3 h4 r e
  show ?thesis by (simp add: call_def create_def)
qed

text \<open>
  The counterexample to C9 as stated: \<^verbatim>\<open>builder.element('').id('x').element('b')\<close>. The
  element slot holds the empty string, and the later call of \<^verbatim>\<open>element\<close> does not
  overwrite it: it throws the ordering error and the slot still holds the empty string.
\<close>

theorem empty_element_not_overwritten_out_of_order:
  "fst (CssSelector_id ''x'' (cssSelectorBuilder_element '''')) = Normal
   \<and> element (config (snd (CssSelector_id ''x'' (cssSelectorBuilder_element '''')))) = Some ''''
   \<and> CssSelector_element ''b'' (snd (CssSelector_id ''x'' (cssSelectorBuilder_element ''''))) =
       (Throw (Error ''Selector parts should be arranged in the following order: element, id, class, attribute, pseudo-class, pseudo-element''),
        snd (CssSelector_id ''x'' (cssSelectorBuilder_element '''')))"
  by (simp add: CssSelector_element_def CssSelector_id_def cssSelectorBuilder_element_def
      CssSelector_new_def constructor_entry_def truthy_def order_message_def)

subsection \<open>Rendering\<close>

text \<open>
  Claim C3, as the code has it: every valid chain of part-method calls (ranks never
  decreasing, each singular part at most once) builds a selector. Of every selector a
  chain builds, the ranks of the calls never decrease and \<^verbatim>\<open>stringify\<close>
  returns the parts in fixed rank order: the element bare, \<^verbatim>\<open>#\<close> before a non-empty id,
  \<^verbatim>\<open>.\<close> before each class, each attribute inside \<^verbatim>\<open>[\<close> and \<^verbatim>\<open>]\<close>, \<^verbatim>\<open>:\<close> before each
  pseudo-class and \<^verbatim>\<open>::\<close> before a non-empty pseudo-element, the classes, attributes and
  pseudo-classes each in the order of their calls. An empty id or pseudo-element
  contributes nothing; when neither is empty the render is the one the claim states.
\<close>

theorem valid_chain_renders_in_rank_order:
  "(valid_calls (c # calls) \<longrightarrow> (\<exists>s. build c calls = Inr s))
   \<and> (build c calls = Inr s \<longrightarrow>
        sorted (map (\<lambda>c. rank (fst c)) (c # calls))
        \<and> CssSelector_stringify s = nonempty_render (c # calls)
        \<and> ([] \<notin> set (values_of Id (c # calls)) \<and> [] \<notin> set (values_of PseudoElement (c # calls))
             \<longrightarrow> CssSelector_stringify s = claimed_render (c # calls)))"
proof -
  obtain m v where c: "c = (m, v)" by (cases c)
  have succeeds: "valid_calls (c # calls) \<longrightarrow> (\<exists>s. build c calls = Inr s)"
    using valid_build_succeeds [of m v calls] by (simp add: c build_def)
  have renders: "sorted (map (\<lambda>c. rank (fst c)) (c # calls))
        \<and> CssSelector_stringify s = nonempty_render (c # calls)
        \<and> ([] \<notin> set (values_of Id (c # calls)) \<and> [] \<notin> set (values_of PseudoElement (c # calls))
             \<longrightarrow> CssSelector_stringify s = claimed_render (c # calls))"
    if built: "build c calls = Inr s"
  proof -
    from built have s: "chain calls (create m v) = Inr s"
      by (simp add: c build_def)
    from chain_sorted [OF s] have "sorted (map (\<lambda>c. rank (fst c)) (c # calls))"
      by (simp add: c create_eq)
    moreover have "CssSelector_stringify s = nonempty_render (c # calls)"
      using built_render [OF s] by (simp only: c)
    ultimately show ?thesis
      by (simp add: nonempty_render_claimed del: values_of_Cons)
  qed
  from succeeds renders show ?thesis by blast
qed

text \<open>The witness is the first example of the file's comment.\<close>

theorem valid_chain_renders_in_rank_order_witness:
  "(\<exists>s. build (Id, ''main'') [(Class, ''container''), (Class, ''editable'')] = Inr s
      \<and> CssSelector_stringify s = ''#main.container.editable'')
   \<and> claimed_render [(Id, ''main''), (Class, ''container''), (Class, ''editable'')] =
         ''#main.container.editable''"
proof -
  have v: "valid_calls [(Id, ''main''), (Class, ''container''), (Class, ''editable'')]"
    by (simp add: valid_calls_def)
  have r: "claimed_render [(Id, ''main''), (Class, ''container''), (Class, ''editable'')] =
         ''#main.container.editable''"
    by (simp add: claimed_render_def)
  from valid_chain_renders_in_rank_order
    [of "(Id, ''main'')" "[(Class, ''container''), (Class, ''editable'')]"] v
  obtain s where s: "build (Id, ''main'') [(Class, ''container''), (Class, ''editable'')] = Inr s"
    by blast
  have ne: "[] \<notin> set (values_of Id [(Id, ''main''), (Class, ''container''), (Class, ''editable'')])
      \<and> [] \<notin> set (values_of PseudoElement
            [(Id, ''main''), (Class, ''container''), (Class, ''editable'')])"
    by simp
  from valid_chain_renders_in_rank_order
    [of "(Id, ''main'')" "[(Class, ''container''), (Class, ''editable'')]" s] s ne
  have "CssSelector_stringify s =
      claimed_render [(Id, ''main''), (Class, ''container''), (Class, ''editable'')]"
    by blast
  then have "CssSelector_stringify s = ''#main.container.editable''"
    by (simp only: r)
  with s r show ?thesis by blast
qed

text \<open>
  The counterexample to C3 as stated: \<^verbatim>\<open>builder.id('')\<close> is a valid chain, the claim's
  render puts \<^verbatim>\<open>#\<close> before the id, and \<^verbatim>\<open>stringify\<close> returns the empty string.
\<close>

theorem empty_id_renders_without_hash:
  "valid_calls [(Id, '''')]
   \<and> build (Id, '''') [] = Inr (cssSelectorBuilder_id '''')
   \<and> claimed_render [(Id, '''')] = ''#''
   \<and> CssSelector_stringify (cssSelectorBuilder_id '''') = ''''"
  by (simp add: valid_calls_def build_def create_def claimed_render_def
      cssSelectorBuilder_id_def CssSelector_new_def constructor_entry_def
      CssSelector_stringify_eq bare_def prefixed_def)

section \<open>Properties of the facade\<close>

lemma stringify_loop_eq: "stringify_loop result r = (result @ concat (rev r), [])"
proof (induction result r rule: stringify_loop.induct)
  case (1 result r)
  show ?case
  proof (cases "r = []")
    case True
    then show ?thesis by (subst stringify_loop.simps) simp
  next
    case False
    then have "r = butlast r @ [last r]" by simp
    then have "rev r = rev (butlast r @ [last r])" by simp
    then have rev: "rev r = last r # rev (butlast r)" by simp
    have "stringify_loop result r = stringify_loop (result @ last r) (butlast r)"
      using False by (subst stringify_loop.simps) simp
    also have "\<dots> = ((result @ last r) @ concat (rev (butlast r)), [])"
      using 1 False by simp
    finally show ?thesis
      by (simp add: rev)
  qed
qed

lemma cssSelectorBuilder_stringify_eq:
  "cssSelectorBuilder_stringify this = (concat (rev (res this)), this\<lparr>res := []\<rparr>)"
  by (simp add: cssSelectorBuilder_stringify_def stringify_loop_eq)

lemma combine_eq:
  "cssSelectorBuilder_combine selector1 combinator selector2 this =
     (Facade,
      (snd (stringify selector2 (snd (stringify selector1 this))))
        \<lparr>res := res (snd (stringify selector2 (snd (stringify selector1 this))))
           @ [fst (stringify selector1 this) @ '' '' @ combinator @ '' ''
              @ fst (stringify selector2 (snd (stringify selector1 this)))]\<rparr>)"
  by (simp add: cssSelectorBuilder_combine_def Let_def split: prod.splits)

lemma of_selectors_simp: "of_selectors (l, c, r) = (Selector l, c, Selector r)"
  by (simp add: of_selectors_def)

lemma combine_selectors:
  "cssSelectorBuilder_combine (Selector l) c (Selector r) this =
     (Facade, this\<lparr>res := res this @ [combination (l, c, r)]\<rparr>)"
  by (simp add: combine_eq stringify_def combination_def)

lemma combine_all_selectors:
  "combine_all (map of_selectors calls) this = this\<lparr>res := res this @ map combination calls\<rparr>"
proof (induction calls arbitrary: this)
  case Nil
  then show ?case by simp
next
  case (Cons t calls)
  obtain l c r where t: "t = (l, c, r)" by (cases t)
  show ?case
    unfolding t by (simp add: of_selectors_simp combine_selectors Cons.IH)
qed

text \<open>
  Claim C10: \<^verbatim>\<open>combine\<close> always returns the facade itself, after it has appended the
  string it put together to the facade's \<^verbatim>\<open>res\<close> (as that list stands once the operands
  have been rendered; for two selector objects, the list before the call). After a
  sequence of \<^verbatim>\<open>combine\<close> calls on selector objects \<^verbatim>\<open>res\<close> holds their strings in call
  order; \<^verbatim>\<open>stringify\<close> of the facade returns the strings of \<^verbatim>\<open>res\<close> concatenated in
  reverse order and empties \<^verbatim>\<open>res\<close>, so after any sequence of \<^verbatim>\<open>combine\<close> calls a
  second \<^verbatim>\<open>stringify\<close> right after the first returns the empty string.
\<close>

theorem combine_accumulates_in_res:
  "fst (cssSelectorBuilder_combine selector1 combinator selector2 this) = Facade
   \<and> res (snd (cssSelectorBuilder_combine selector1 combinator selector2 this)) =
       res (snd (stringify selector2 (snd (stringify selector1 this))))
       @ [fst (stringify selector1 this) @ '' '' @ combinator @ '' ''
          @ fst (stringify selector2 (snd (stringify selector1 this)))]
   \<and> res (snd (cssSelectorBuilder_combine (Selector l) combinator (Selector r) this)) =
       res this @ [CssSelector_stringify l @ '' '' @ combinator @ '' '' @ CssSelector_stringify r]
   \<and> res (combine_all (map of_selectors calls) this) = res this @ map combination calls
   \<and> cssSelectorBuilder_stringify this = (concat (rev (res this)), this\<lparr>res := []\<rparr>)
   \<and> fst (cssSelectorBuilder_stringify (combine_all (map of_selectors calls) \<lparr>res = []\<rparr>)) =
       concat (rev (map combination calls))
   \<and> fst (cssSelectorBuilder_stringify
            (snd (cssSelectorBuilder_stringify (combine_all any_calls this)))) = ''''"
  by (simp add: combine_eq combine_all_selectors cssSelectorBuilder_stringify_eq
      stringify_def combination_def)

text \<open>
  On a facade whose \<^verbatim>\<open>res\<close> is empty, one \<^verbatim>\<open>combine\<close> of two selector objects renders
  as the specification says, and so does a combination nested on the left; with entries
  left in \<^verbatim>\<open>res\<close> by earlier calls, these entries end up inside the result.
\<close>

lemma combine_render:
  "fst (stringify Facade (snd (cssSelectorBuilder_combine (Selector l) c (Selector r) this))) =
     CssSelector_stringify l @ '' '' @ c @ '' '' @ CssSelector_stringify r @ concat (rev (res this))"
  by (simp add: combine_eq stringify_def cssSelectorBuilder_stringify_eq)

lemma nested_combine_render:
  "fst (stringify Facade
         (snd (cssSelectorBuilder_combine Facade c2 (Selector r)
                (snd (cssSelectorBuilder_combine (Selector l) c1 (Selector m) this))))) =
     CssSelector_stringify l @ '' '' @ c1 @ '' '' @ CssSelector_stringify m
     @ concat (rev (res this)) @ '' '' @ c2 @ '' '' @ CssSelector_stringify r"
  by (simp add: combine_eq stringify_def cssSelectorBuilder_stringify_eq)

lemma element_id_render:
  "CssSelector_stringify (snd (CssSelector_id i (cssSelectorBuilder_element e))) =
     e @ (if i = [] then [] else ''#'' @ i)"
  by (simp add: CssSelector_stringify_eq CssSelector_id_def cssSelectorBuilder_element_def
      CssSelector_new_def constructor_entry_def truthy_def bare_def prefixed_def)

lemma element_render: "CssSelector_stringify (cssSelectorBuilder_element e) = e"
  by (simp add: CssSelector_stringify_eq cssSelectorBuilder_element_def
      CssSelector_new_def constructor_entry_def bare_def prefixed_def)

text \<open>
  Claim C1 does not hold of the code. \<^verbatim>\<open>combine\<close> returns the facade, not a value of its
  own, so two combination results are the same object. On a fresh facade,
  \<^verbatim>\<open>builder.combine(builder.combine(a, '+', b), '~', builder.combine(c, '>', d)).stringify()\<close>
  with \<^verbatim>\<open>a = builder.element('a')\<close> and so on: rendering the left operand flushes both
  inner strings, newest first, and the right operand renders to the empty string. The
  claim's render is \<^verbatim>\<open>a + b ~ c > d\<close>. The claim's own example, on a fresh facade, does
  render to \<^verbatim>\<open>div#main + table#data\<close>.
\<close>

theorem combine_of_two_combinations:
  "(let b0 = \<lparr>res = []\<rparr>;
        (left, b1) = cssSelectorBuilder_combine (Selector (cssSelectorBuilder_element ''a'')) ''+''
                       (Selector (cssSelectorBuilder_element ''b'')) b0;
        (right, b2) = cssSelectorBuilder_combine (Selector (cssSelectorBuilder_element ''c'')) ''>''
                       (Selector (cssSelectorBuilder_element ''d'')) b1;
        (result, b3) = cssSelectorBuilder_combine left ''~'' right b2
    in fst (stringify result b3)) = ''c > da + b ~ ''
   \<and> (let b0 = \<lparr>res = []\<rparr>;
        (result, b1) = cssSelectorBuilder_combine
                         (Selector (snd (CssSelector_id ''main'' (cssSelectorBuilder_element ''div''))))
                         ''+''
                         (Selector (snd (CssSelector_id ''data'' (cssSelectorBuilder_element ''table''))))
                         b0
    in fst (stringify result b1)) = ''div#main + table#data''"
  by (simp add: combine_eq stringify_def cssSelectorBuilder_stringify_eq element_render
      element_id_render)

text \<open>
  Claim C2 does not hold of the code. The nested combination
  \<^verbatim>\<open>builder.combine(builder.combine(l, '+', m), '~', r).stringify()\<close> renders to
  \<^verbatim>\<open>l + m ~ r\<close> on a fresh facade. After one earlier, unrelated
  \<^verbatim>\<open>builder.combine(x, '>', y)\<close> whose result was not rendered, the same expression
  renders to \<^verbatim>\<open>l + mx > y ~ r\<close>: the two runs differ only in the earlier call, and in
  their output.
\<close>

theorem nested_combine_depends_on_earlier_calls:
  "(let b0 = \<lparr>res = []\<rparr>;
        (inner, b1) = cssSelectorBuilder_combine (Selector (cssSelectorBuilder_element ''l'')) ''+''
                        (Selector (cssSelectorBuilder_element ''m'')) b0;
        (outer, b2) = cssSelectorBuilder_combine inner ''~''
                        (Selector (cssSelectorBuilder_element ''r'')) b1
    in fst (stringify outer b2)) = ''l + m ~ r''
   \<and> (let b0 = \<lparr>res = []\<rparr>;
        (earlier, b0') = cssSelectorBuilder_combine (Selector (cssSelectorBuilder_element ''x'')) ''>''
                        (Selector (cssSelectorBuilder_element ''y'')) b0;
        (inner, b1) = cssSelectorBuilder_combine (Selector (cssSelectorBuilder_element ''l'')) ''+''
                        (Selector (cssSelectorBuilder_element ''m'')) b0';
        (outer, b2) = cssSelectorBuilder_combine inner ''~''
                        (Selector (cssSelectorBuilder_element ''r'')) b1
    in fst (stringify outer b2)) = ''l + mx > y ~ r''"
  by (simp add: combine_eq stringify_def cssSelectorBuilder_stringify_eq element_render)

section \<open>Properties of Rectangle and the JSON helpers\<close>

text \<open>
  \<^verbatim>\<open>fromJSON\<close> never leaves the model: the values it assigns come from a JSON text and
  none is a function.
\<close>

lemma set_property_defined: "\<forall>f. v \<noteq> Function f \<Longrightarrow> set_property this k v \<noteq> None"
  by (cases v) (simp_all add: set_property_def split: option.splits property.splits bool.splits)

lemma fold_set_property_defined:
  "acc \<noteq> None \<Longrightarrow> \<forall>e \<in> set entries. \<forall>f. snd e \<noteq> Function f \<Longrightarrow>
     foldl (\<lambda>this (prop, v). do { this \<leftarrow> this; set_property this prop v }) acc entries \<noteq> None"
proof (induction entries arbitrary: acc)
  case Nil
  then show ?case by simp
next
  case (Cons e entries)
  obtain k v where e: "e = (k, v)" by (cases e)
  from Cons.prems(1) obtain this where acc: "acc = Some this" by auto
  from Cons.prems(2) e have v: "\<forall>f. v \<noteq> Function f" by simp
  have "set_property this k v \<noteq> None"
    by (rule set_property_defined [OF v])
  moreover have "\<forall>e \<in> set entries. \<forall>f. snd e \<noteq> Function f"
    using Cons.prems(2) by simp
  ultimately have "foldl (\<lambda>this (prop, v). do { this \<leftarrow> this; set_property this prop v })
      (set_property this k v) entries \<noteq> None"
    by (rule Cons.IH)
  then show ?case
    unfolding e acc by simp
qed

lemma set_update_subset: "set (AList.update k v al) \<subseteq> insert (k, v) (set al)"
  by (induction al) auto

lemma JSON_parse_values:
  "\<forall>e \<in> set acc. \<forall>f. snd e \<noteq> Function f \<Longrightarrow>
     \<forall>e \<in> set (foldl (\<lambda>params (k, j). AList.update k (value_of j) params) acc members).
        \<forall>f. snd e \<noteq> Function f"
proof (induction members arbitrary: acc)
  case Nil
  then show ?case by simp
next
  case (Cons m members)
  obtain k j where m: "m = (k, j)" by (cases m)
  have j: "\<forall>f. value_of j \<noteq> Function f" by (cases j) simp_all
  have "\<forall>e \<in> set (AList.update k (value_of j) acc). \<forall>f. snd e \<noteq> Function f"
  proof
    fix e
    assume "e \<in> set (AList.update k (value_of j) acc)"
    with set_update_subset have "e = (k, value_of j) \<or> e \<in> set acc"
      by fastforce
    with j Cons.prems show "\<forall>f. snd e \<noteq> Function f"
      by auto
  qed
  from Cons.IH [OF this] show ?case
    unfolding m by simp
qed

lemma fromJSON_defined: "fromJSON p json \<noteq> None"
proof -
  have vals: "\<forall>e \<in> set (JSON_parse json). \<forall>f. snd e \<noteq> Function f"
    unfolding JSON_parse_def by (rule JSON_parse_values) simp
  have "set (own_entries (JSON_parse json)) \<subseteq> set (JSON_parse json)"
    by (auto simp: own_entries_def)
  with vals have "\<forall>e \<in> set (own_entries (JSON_parse json)). \<forall>f. snd e \<noteq> Function f"
    by blast
  moreover have "Some (Obj [] (Some p)) \<noteq> None"
    by simp
  ultimately show ?thesis
    unfolding fromJSON_def Let_def by (rule fold_set_property_defined [rotated])
qed

lemma not_array_index:
  "array_index ''width'' = None" "array_index ''height'' = None" "array_index ''getArea'' = None"
  by (simp_all add: array_index_def digit_value_def)

lemma lookup_Rectangle_prototype:
  "lookup Rectangle_prototype ''width'' = None"
  "lookup Rectangle_prototype ''height'' = None"
  "lookup Rectangle_prototype ''getArea'' = None"
  "lookup Rectangle_prototype ''toJSON'' = None"
  by (simp_all add: Rectangle_prototype_def Object_prototype_def)

lemma Rectangle_eq:
  "Rectangle w h =
     Some (Obj [(''width'', Data (Number w) True), (''height'', Data (Number h) True),
                (''getArea'', Data (Function ''() => this.width * this.height'') True)]
             (Some Rectangle_prototype))"
  by (simp add: Rectangle_def set_property_def lookup_Rectangle_prototype)

lemma getJSON_Rectangle:
  "getJSON (Obj [(''width'', Data (Number w) True), (''height'', Data (Number h) True),
                 (''getArea'', Data (Function f) True)] (Some Rectangle_prototype)) =
     Some [(''width'', encoded w), (''height'', encoded h)]"
  by (simp add: getJSON_def JSON_stringify_def own_entries_def not_array_index
      lookup_Rectangle_prototype List.map_filter_simps)

lemma fromJSON_Rectangle_prototype:
  "fromJSON Rectangle_prototype [(''width'', j1), (''height'', j2)] =
     Some (Obj [(''width'', Data (value_of j1) True), (''height'', Data (value_of j2) True)]
             (Some Rectangle_prototype))"
  by (simp add: fromJSON_def JSON_parse_def own_entries_def not_array_index set_property_def
      lookup_Rectangle_prototype)

lemma value_of_encoded:
  "value_of (encoded n) = (case n of Finite x \<Rightarrow> Number (Finite x) | _ \<Rightarrow> Null)"
  by (cases n) simp_all

text \<open>
  Claim C8, as the code has it: for a rectangle \<open>r\<close>, decoding \<^verbatim>\<open>getJSON(r)\<close> by
  \<^verbatim>\<open>fromJSON\<close> with the rectangle's prototype gives an object whose own properties are
  \<^verbatim>\<open>width\<close> and \<^verbatim>\<open>height\<close> and whose prototype is \<^verbatim>\<open>Rectangle.prototype\<close>. A finite
  width or height has the value it has in \<open>r\<close>; \<^verbatim>\<open>NaN\<close> and the infinities come back as
  \<^verbatim>\<open>null\<close>. \<^verbatim>\<open>getArea\<close> is an own property of \<open>r\<close>, it is not an own property of the
  result, and it is not inherited either: \<^verbatim>\<open>Rectangle.prototype\<close> has no \<^verbatim>\<open>getArea\<close>, so
  reading it from the result gives \<^verbatim>\<open>undefined\<close>.
\<close>

theorem rectangle_json_round_trip:
  "Rectangle w h =
     Some (Obj [(''width'', Data (Number w) True), (''height'', Data (Number h) True),
                (''getArea'', Data (Function ''() => this.width * this.height'') True)]
             (Some Rectangle_prototype))
   \<and> do { r \<leftarrow> Rectangle w h; json \<leftarrow> getJSON r; fromJSON Rectangle_prototype json } =
       Some (Obj [(''width'', Data (case w of Finite x \<Rightarrow> Number (Finite x) | _ \<Rightarrow> Null) True),
                  (''height'', Data (case h of Finite y \<Rightarrow> Number (Finite y) | _ \<Rightarrow> Null) True)]
               (Some Rectangle_prototype))
   \<and> do { r \<leftarrow> Rectangle (Finite x) (Finite y); json \<leftarrow> getJSON r;
           fromJSON Rectangle_prototype json } =
       Some (Obj [(''width'', Data (Number (Finite x)) True),
                  (''height'', Data (Number (Finite y)) True)]
               (Some Rectangle_prototype))
   \<and> lookup (Obj [(''width'', a), (''height'', b)] (Some Rectangle_prototype)) ''getArea'' = None
   \<and> lookup Rectangle_prototype ''getArea'' = None"
  by (simp add: Rectangle_eq getJSON_Rectangle fromJSON_Rectangle_prototype value_of_encoded
      lookup_Rectangle_prototype)

theorem rectangle_json_round_trip_witness:
  "do { r \<leftarrow> Rectangle (Finite 10) (Finite 20); json \<leftarrow> getJSON r;
        fromJSON Rectangle_prototype json } =
     Some (Obj [(''width'', Data (Number (Finite 10)) True),
                (''height'', Data (Number (Finite 20)) True)]
             (Some Rectangle_prototype))"
  by (rule rectangle_json_round_trip
      [of "Finite 10" "Finite 20" 10 20, THEN conjunct2, THEN conjunct2, THEN conjunct1])

text \<open>
  The counterexample to C8 as stated, \<^verbatim>\<open>new Rectangle(10, 20)\<close>: the area method is an own
  property of the rectangle, \<^verbatim>\<open>Rectangle.prototype\<close> has none, and the decoded object
  inherits none. Also, a width that is \<^verbatim>\<open>NaN\<close> comes back as \<^verbatim>\<open>null\<close>.
\<close>

theorem area_method_is_not_inherited:
  "map_option (\<lambda>r. map_of (own r) ''getArea'') (Rectangle (Finite 10) (Finite 20)) =
     Some (Some (Data (Function ''() => this.width * this.height'') True))
   \<and> lookup Rectangle_prototype ''getArea'' = None
   \<and> map_option (\<lambda>decoded. lookup decoded ''getArea'')
        (do { r \<leftarrow> Rectangle (Finite 10) (Finite 20); json \<leftarrow> getJSON r;
              fromJSON Rectangle_prototype json }) = Some None
   \<and> map_option (\<lambda>decoded. map_of (own decoded) ''width'')
        (do { r \<leftarrow> Rectangle NaN (Finite 20); json \<leftarrow> getJSON r;
              fromJSON Rectangle_prototype json }) = Some (Some (Data Null True))"
  by (simp add: Rectangle_eq getJSON_Rectangle fromJSON_Rectangle_prototype
      lookup_Rectangle_prototype)

end
